theory Spec2Isabelle
  imports Complex_Main
begin

section \<open>Strings as the checker uses them\<close>

text \<open>
  Python strings are modelled as lists of 8-bit characters. Every signature of the
  registry is ASCII, and \<open>str.lower()\<close> is modelled on the ASCII letters (A-Z go to a-z,
  every other character is left as it is).
\<close>

definition ascii_uppercase :: string where
  "ascii_uppercase = ''ABCDEFGHIJKLMNOPQRSTUVWXYZ''"

definition ascii_lowercase :: string where
  "ascii_lowercase = ''abcdefghijklmnopqrstuvwxyz''"

definition lower_char :: "char \<Rightarrow> char" where
  "lower_char c =
     (case map_of (zip ascii_uppercase ascii_lowercase) c of None \<Rightarrow> c | Some l \<Rightarrow> l)"


definition lower :: "string \<Rightarrow> string" where
  "lower s = map lower_char s"


text \<open>\<open>is_prefix p t\<close>: the text \<open>t\<close> starts with \<open>p\<close>.\<close>

fun is_prefix :: "string \<Rightarrow> string \<Rightarrow> bool" where
  "is_prefix [] t = True"
| "is_prefix (a # p) [] = False"
| "is_prefix (a # p) (b # t) = (a = b \<and> is_prefix p t)"

text \<open>\<open>str_in p t\<close> is Python's \<open>p in t\<close> on strings: \<open>p\<close> occurs in \<open>t\<close> as a substring.\<close>

fun str_in :: "string \<Rightarrow> string \<Rightarrow> bool" where
  "str_in p [] = (p = [])"
| "str_in p (c # t) = (is_prefix p (c # t) \<or> str_in p t)"

text \<open>
  \<open>split_sep sep s\<close> is Python's \<open>s.split(sep)\<close> for a one-character separator: it cuts
  at every occurrence and always returns at least one piece.
\<close>

fun split_sep :: "char \<Rightarrow> string \<Rightarrow> string list" where
  "split_sep sep [] = [[]]"
| "split_sep sep (c # cs) =
     (if c = sep then [] # split_sep sep cs
      else (case split_sep sep cs of
              [] \<Rightarrow> [[c]]
            | w # ws \<Rightarrow> (c # w) # ws))"

section \<open>Exceptions, log records and the outside world\<close>

text \<open>
  Exceptions are values: a class and the message \<open>str(e)\<close>. \<open>NXDOMAIN\<close>, \<open>NoAnswer\<close>
  and \<open>DNSException\<close> (any other failure of the resolver, such as a timeout) come from
  \<open>dns.resolver\<close>; \<open>RequestException\<close> from \<open>requests\<close>. \<open>KeyboardInterrupt\<close> stands
  for the classes that derive from \<open>BaseException\<close> only, which \<open>except Exception\<close>
  does not catch.
\<close>

datatype exn_class =
    NXDOMAIN | NoAnswer | DNSException
  | RequestException | NameError | ValueError | OtherException
  | KeyboardInterrupt

datatype exn = Exn (cls: exn_class) (str: string)

definition is_Exception :: "exn \<Rightarrow> bool" where
  "is_Exception e = (cls e \<noteq> KeyboardInterrupt)"

datatype level = DEBUG | WARNING | ERROR

type_synonym log_entry = "level \<times> string"

text \<open>
  A completed HTTP response, as \<open>_check_http_indicators\<close> reads it: the header pairs, the
  cookies (name and value) and the decoded body, whose decoding may raise.
\<close>

record response =
  resp_status_code :: int
  headers :: "(string \<times> string) list"
  cookies :: "(string \<times> string) list"
  body_text :: "exn + string"

text \<open>
  The library calls of \<open>check_waf_protection\<close>: \<open>urlparse(url).netloc\<close>,
  \<open>dns.resolver.resolve(domain, rdtype)\<close> (the records as text: \<open>str(record)\<close> for TXT,
  \<open>str(record.target)\<close> for CNAME), \<open>requests.get(url, ...)\<close>, and the two readings of
  \<open>time.time()\<close> around the request.
\<close>

record env =
  urlparse_netloc :: "string \<Rightarrow> exn + string"
  resolve :: "string \<Rightarrow> string \<Rightarrow> exn + string list"
  requests_get :: "string \<Rightarrow> exn + response"
  time_start :: real
  time_end :: real

section \<open>The pattern registry\<close>

text \<open>\<open>self.waf_patterns\<close> of \<open>WAFChecker.__init__\<close>, in the order the dict is written.\<close>

definition waf_patterns :: "(string \<times> string list) list" where
  "waf_patterns =
    [(''cloudflare'', [''cloudflare'', ''__cfduid'', ''cf-ray'']),
     (''aws_waf'', [''x-amz-cf-id'', ''x-amz-cf-pop'', ''x-amz-cf-id'']),
     (''akamai'', [''akamai'', ''x-akamai-transformed'']),
     (''fastly'', [''fastly'', ''x-fastly'']),
     (''imperva'', [''incap_ses'', ''visid_incap'', ''x-iinfo'']),
     (''f5_bigip'', [''bigip'', ''x-wa-info'']),
     (''barracuda'', [''barra_counter_session'', ''barra_counter_session'']),
     (''citrix'', [''citrix'', ''ns_af'']),
     (''sucuri'', [''sucuri'', ''x-sucuri'']),
     (''cloudfront'', [''x-amz-cf-id'', ''x-amz-cf-pop''])]"

text \<open>
  The inner loop shared by every check,
  \<open>for waf_name, patterns in self.waf_patterns.items(): if any(hit(pattern) ...)\<close>:
  the vendors with at least one signature that hits, in registry order, each once.
\<close>

definition matching_vendors :: "(string \<Rightarrow> bool) \<Rightarrow> string list" where
  "matching_vendors hit =
     map fst (filter (\<lambda>(waf_name, patterns). list_ex hit patterns) waf_patterns)"

section \<open>\<open>_check_dns_indicators\<close>\<close>

text \<open>The loop over the TXT records: one \<open>DNS_TXT_<vendor>\<close> per record and matching vendor.\<close>

definition txt_loop :: "string list \<Rightarrow> string list" where
  "txt_loop txt_records =
     concat (map (\<lambda>record.
        map (\<lambda>waf_name. ''DNS_TXT_'' @ waf_name)
            (matching_vendors (\<lambda>pattern. str_in pattern (lower record))))
      txt_records)"

text \<open>
  The loop over the CNAME records. The test is
  \<open>any(cdn in cname_data for cdn in [...])\<close> and the body is
  \<open>indicators.append(f"DNS_CNAME_{cdn}")\<close>. The name \<open>cdn\<close> is bound inside the generator
  expression only; in the body it is an unbound name, so the first record that passes
  the test raises \<open>NameError\<close> and nothing is ever appended. The loop therefore yields
  only whether it raised.
\<close>

definition cdn_tokens :: "string list" where
  "cdn_tokens = [''cloudflare'', ''akamai'', ''fastly'', ''cloudfront'']"

definition name_error_cdn :: exn where
  "name_error_cdn = Exn NameError (''name '' @ [CHR 0x27] @ ''cdn'' @ [CHR 0x27] @ '' is not defined'')"

fun cname_loop :: "string list \<Rightarrow> exn option" where
  "cname_loop [] = None"
| "cname_loop (target # rest) =
     (let cname_data = lower target
      in if list_ex (\<lambda>cdn. str_in cdn cname_data) cdn_tokens
         then Some name_error_cdn
         else cname_loop rest)"

text \<open>
  The body of the outer \<open>try\<close>: the indicators appended so far, and the exception that
  left the body, if any. The TXT block swallows \<open>NXDOMAIN\<close> and \<open>NoAnswer\<close>; the CNAME
  block swallows \<open>NoAnswer\<close> only.
\<close>

definition dns_try_body :: "env \<Rightarrow> string \<Rightarrow> string list \<times> exn option" where
  "dns_try_body e domain =
     (case (case resolve e domain ''TXT'' of
              Inr txt_records \<Rightarrow> Inr (txt_loop txt_records)
            | Inl x \<Rightarrow> if cls x = NXDOMAIN \<or> cls x = NoAnswer then Inr [] else Inl x) of
        Inl x \<Rightarrow> ([], Some x)
      | Inr indicators \<Rightarrow>
          (case resolve e domain ''CNAME'' of
             Inr cname_records \<Rightarrow> (indicators, cname_loop cname_records)
           | Inl x \<Rightarrow> if cls x = NoAnswer then (indicators, None) else (indicators, Some x)))"

text \<open>
  \<open>except Exception as e: logger.debug(...)\<close>, then \<open>return indicators\<close>. The result is
  the indicator list with the records logged, or the exception that propagates.
\<close>

definition check_dns_indicators :: "env \<Rightarrow> string \<Rightarrow> exn + (string list \<times> log_entry list)" where
  "check_dns_indicators e domain =
     (case dns_try_body e domain of
        (indicators, None) \<Rightarrow> Inr (indicators, [])
      | (indicators, Some x) \<Rightarrow>
          if is_Exception x
          then Inr (indicators, [(DEBUG, ''Erro ao verificar DNS para '' @ domain @ '': '' @ str x)])
          else Inl x)"

section \<open>\<open>_check_http_indicators\<close>\<close>

definition header_loop :: "(string \<times> string) list \<Rightarrow> string list" where
  "header_loop hs =
     concat (map (\<lambda>(header_name, header_value).
        map (\<lambda>waf_name. ''HTTP_HEADER_'' @ waf_name)
            (matching_vendors (\<lambda>pattern. str_in pattern (lower header_name)
                                        \<or> str_in pattern (lower header_value))))
      hs)"

definition cookie_loop :: "(string \<times> string) list \<Rightarrow> string list" where
  "cookie_loop cs =
     concat (map (\<lambda>cookie.
        map (\<lambda>waf_name. ''HTTP_COOKIE_'' @ waf_name)
            (matching_vendors (\<lambda>pattern. str_in pattern (lower (fst cookie)))))
      cs)"

text \<open>The body check sits in \<open>try: ... except: pass\<close>: a body that cannot be read adds nothing.\<close>

definition body_check :: "exn + string \<Rightarrow> string list" where
  "body_check t =
     (case t of
        Inl x \<Rightarrow> []
      | Inr content \<Rightarrow>
          map (\<lambda>waf_name. ''HTTP_BODY_'' @ waf_name)
              (matching_vendors (\<lambda>pattern. str_in pattern (lower content))))"

definition check_http_indicators :: "response \<Rightarrow> string list" where
  "check_http_indicators r =
     header_loop (headers r) @ cookie_loop (cookies r) @ body_check (body_text r)"

section \<open>\<open>_determine_waf_type\<close>\<close>

text \<open>
  \<open>waf_counts\<close> is a dict; its iteration order is the order in which the keys were first
  inserted, so it is an association list: \<open>dict_get\<close> is \<open>d.get(k, default)\<close> and
  \<open>dict_set\<close> is \<open>d[k] = v\<close> (an existing key keeps its place, a new key goes last).
\<close>

fun dict_get :: "(string \<times> int) list \<Rightarrow> string \<Rightarrow> int \<Rightarrow> int" where
  "dict_get [] k d = d"
| "dict_get ((k', v) # kvs) k d = (if k' = k then v else dict_get kvs k d)"

fun dict_set :: "(string \<times> int) list \<Rightarrow> string \<Rightarrow> int \<Rightarrow> (string \<times> int) list" where
  "dict_set [] k v = [(k, v)]"
| "dict_set ((k', v') # kvs) k v =
     (if k' = k then (k', v) # kvs else (k', v') # dict_set kvs k v)"

text \<open>The vendor name the resolver reads off an indicator: \<open>indicator.split('_')[-1]\<close>.\<close>

definition waf_name_of :: "string \<Rightarrow> string" where
  "waf_name_of indicator = last (split_sep (CHR ''_'') indicator)"

fun tally :: "string list \<Rightarrow> (string \<times> int) list \<Rightarrow> (string \<times> int) list" where
  "tally [] waf_counts = waf_counts"
| "tally (indicator # rest) waf_counts =
     (let waf_name = waf_name_of indicator
      in tally rest (dict_set waf_counts waf_name (dict_get waf_counts waf_name 0 + 1)))"

text \<open>
  \<open>max(iterable, key=f)\<close> keeps the first element whose key is the largest: a later
  element replaces the best one only when its key is strictly greater.
\<close>

fun py_max_key :: "(string \<Rightarrow> int) \<Rightarrow> string \<Rightarrow> string list \<Rightarrow> string" where
  "py_max_key f best [] = best"
| "py_max_key f best (x # xs) =
     (if f x > f best then py_max_key f x xs else py_max_key f best xs)"

definition determine_waf_type :: "string list \<Rightarrow> string" where
  "determine_waf_type indicators =
     (let waf_counts = tally indicators []
      in case map fst waf_counts of
           [] \<Rightarrow> ''unknown''
         | k # ks \<Rightarrow> py_max_key (\<lambda>k. dict_get waf_counts k 0) k ks)"

section \<open>\<open>check_waf_protection\<close>\<close>

record result =
  url :: string
  waf_detected :: bool
  waf_type :: "string option"
  waf_indicators :: "string list"
  status_code :: "int option"
  response_time :: "real option"
  error :: "string option"

text \<open>
  The body of the \<open>try\<close> of \<open>check_waf_protection\<close>, with the result dict passed
  through: the dict as the body left it, the records the DNS check logged, and the
  exception that left the body, if any.
\<close>

definition protection_try_body ::
  "env \<Rightarrow> string \<Rightarrow> result \<Rightarrow> (result \<times> log_entry list) \<times> exn option" where
  "protection_try_body e target res =
     (case urlparse_netloc e target of
        Inl x \<Rightarrow> ((res, []), Some x)
      | Inr domain \<Rightarrow>
          (case check_dns_indicators e domain of
             Inl x \<Rightarrow> ((res, []), Some x)
           | Inr (dns_indicators, dns_log) \<Rightarrow>
               (let res1 = (if dns_indicators \<noteq> []
                            then res\<lparr>waf_detected := True,
                                     waf_indicators := waf_indicators res @ dns_indicators\<rparr>
                            else res)
                in case requests_get e target of
                     Inl x \<Rightarrow> ((res1, dns_log), Some x)
                   | Inr r \<Rightarrow>
                       (let res2 = res1\<lparr>response_time := Some (time_end e - time_start e),
                                        status_code := Some (resp_status_code r)\<rparr>;
                            http_indicators = check_http_indicators r;
                            res3 = (if http_indicators \<noteq> []
                                    then res2\<lparr>waf_detected := True,
                                              waf_indicators := waf_indicators res2 @ http_indicators\<rparr>
                                    else res2);
                            res4 = (if waf_indicators res3 \<noteq> []
                                    then res3\<lparr>waf_type := Some (determine_waf_type (waf_indicators res3))\<rparr>
                                    else res3)
                        in ((res4, dns_log), None)))))"

text \<open>
  The two handlers both store \<open>str(e)\<close> in \<open>error\<close> and differ in the log level; an
  exception that is not an \<open>Exception\<close> propagates to the caller.
\<close>

definition check_waf_protection :: "env \<Rightarrow> string \<Rightarrow> exn + (result \<times> log_entry list)" where
  "check_waf_protection e target =
     (case protection_try_body e target
             \<lparr>url = target, waf_detected = False, waf_type = None, waf_indicators = [],
              status_code = None, response_time = None, error = None\<rparr> of
        ((res, logs), None) \<Rightarrow> Inr (res, logs)
      | ((res, logs), Some x) \<Rightarrow>
          if cls x = RequestException
          then Inr (res\<lparr>error := Some (str x)\<rparr>,
                    logs @ [(WARNING, ''Erro ao acessar '' @ target @ '': '' @ str x)])
          else if is_Exception x
          then Inr (res\<lparr>error := Some (str x)\<rparr>,
                    logs @ [(ERROR, ''Erro inesperado ao verificar '' @ target @ '': '' @ str x)])
          else Inl x)"

section \<open>Notions used to state the properties\<close>

text \<open>
  A library call is \<open>caught\<close> when it returns or raises an \<open>Exception\<close>: what is left out
  are the interrupts of the process (\<open>KeyboardInterrupt\<close>, \<open>SystemExit\<close>).
\<close>

definition caught :: "exn + 'a \<Rightarrow> bool" where
  "caught r = (case r of Inl x \<Rightarrow> is_Exception x | Inr v \<Rightarrow> True)"


text \<open>
  The resolver as the specification words it: count every name, and the name with the
  highest count wins, the first one in the list among equals.
\<close>

definition first_most_frequent :: "string list \<Rightarrow> string option" where
  "first_most_frequent names =
     find (\<lambda>n. \<forall>m \<in> set names. count_list names m \<le> count_list names n) names"



subsection \<open>Concrete worlds\<close>

text \<open>
  A domain with a TXT record that names Cloudflare and no CNAME, whose web server refuses
  the connection.
\<close>

definition env_txt_refused :: env where
  "env_txt_refused =
     \<lparr>urlparse_netloc = (\<lambda>u. Inr ''shop.example''),
      resolve = (\<lambda>domain rdtype.
         if rdtype = ''TXT'' then Inr [''cloudflare-verify=8f2a'']
         else Inl (Exn NoAnswer ''The DNS response does not contain an answer to the question'')),
      requests_get = (\<lambda>u. Inl (Exn RequestException ''Connection refused'')),
      time_start = 0, time_end = 0\<rparr>"

text \<open>
  A domain with no TXT record and a CNAME to a CloudFront distribution, whose web server
  refuses the connection.
\<close>

definition env_cname_refused :: env where
  "env_cname_refused =
     \<lparr>urlparse_netloc = (\<lambda>u. Inr ''cdn.example''),
      resolve = (\<lambda>domain rdtype.
         if rdtype = ''CNAME'' then Inr [''d111111abcdef8.cloudfront.net.'']
         else Inl (Exn NoAnswer ''The DNS response does not contain an answer to the question'')),
      requests_get = (\<lambda>u. Inl (Exn RequestException ''Connection refused'')),
      time_start = 0, time_end = 0\<rparr>"

text \<open>A response with a Cloudflare header and a Cloudflare cookie, from a domain without DNS records of either type.\<close>

definition response_cf :: response where
  "response_cf =
     \<lparr>resp_status_code = 200,
      headers = [(''CF-RAY'', ''abcd1234''), (''Content-Type'', ''text/html'')],
      cookies = [(''__cfduid'', ''xyz'')],
      body_text = Inr ''<html>hello</html>''\<rparr>"

definition env_cf :: env where
  "env_cf =
     \<lparr>urlparse_netloc = (\<lambda>u. Inr ''www.example''),
      resolve = (\<lambda>domain rdtype.
         Inl (Exn NoAnswer ''The DNS response does not contain an answer to the question'')),
      requests_get = (\<lambda>u. Inr response_cf),
      time_start = 10, time_end = 11\<rparr>"

text \<open>A domain that does not exist.\<close>

definition env_nxdomain :: env where
  "env_nxdomain =
     \<lparr>urlparse_netloc = (\<lambda>u. Inr ''nonexistent.example''),
      resolve = (\<lambda>domain rdtype. Inl (Exn NXDOMAIN ''The DNS query name does not exist'')),
      requests_get = (\<lambda>u. Inl (Exn RequestException ''Name or service not known'')),
      time_start = 0, time_end = 0\<rparr>"

text \<open>A domain whose DNS queries time out while its web server answers with a plain page.\<close>

definition response_plain :: response where
  "response_plain =
     \<lparr>resp_status_code = 200, headers = [(''Content-Type'', ''text/html'')], cookies = [],
      body_text = Inr ''ok''\<rparr>"

definition env_dns_timeout :: env where
  "env_dns_timeout =
     \<lparr>urlparse_netloc = (\<lambda>u. Inr ''slow.example''),
      resolve = (\<lambda>domain rdtype. Inl (Exn DNSException ''The DNS operation timed out'')),
      requests_get = (\<lambda>u. Inr response_plain),
      time_start = 0, time_end = 2\<rparr>"


text \<open>A response of a BIG-IP appliance: two headers give it away, and a stray Cloudflare cookie.\<close>

definition response_bigip :: response where
  "response_bigip =
     \<lparr>resp_status_code = 200,
      headers = [(''X-WA-Info'', ''[S1.C1]''), (''Server'', ''BigIP'')],
      cookies = [(''__cfduid'', ''xyz'')],
      body_text = Inr []\<rparr>"

section \<open>Evaluation\<close>

lemmas string_simps = lower_def lower_char_def ascii_uppercase_def ascii_lowercase_def

lemmas model_simps =
  check_waf_protection_def protection_try_body_def check_dns_indicators_def dns_try_body_def
  check_http_indicators_def header_loop_def cookie_loop_def body_check_def txt_loop_def
  matching_vendors_def waf_patterns_def cdn_tokens_def name_error_cdn_def is_Exception_def
  determine_waf_type_def waf_name_of_def

section \<open>The HTTP check\<close>

lemma distinct_waf_names: "distinct (map fst waf_patterns)"
  by (simp add: waf_patterns_def)

lemma distinct_matching_vendors: "distinct (matching_vendors hit)"
  unfolding matching_vendors_def by (rule distinct_map_filter) (rule distinct_waf_names)

lemma count_list_distinct: "distinct xs \<Longrightarrow> count_list xs x \<le> 1"
  by (induction xs) auto

lemma count_list_tagged_le: "count_list (map ((@) tag) (matching_vendors hit)) x \<le> Suc 0"
  using count_list_distinct[of "map ((@) tag) (matching_vendors hit)" x]
  by (simp add: distinct_map distinct_matching_vendors inj_on_def)

lemma count_list_concat_le:
  "(\<And>h. count_list (g h) x \<le> 1) \<Longrightarrow> count_list (concat (map g hs)) x \<le> length hs"
proof (induction hs)
  case Nil
  then show ?case by simp
next
  case (Cons h hs)
  have "count_list (g h) x \<le> 1" by (rule Cons.prems)
  moreover have "count_list (concat (map g hs)) x \<le> length hs"
    by (rule Cons.IH) (rule Cons.prems)
  ultimately show ?case by simp
qed

lemma header_loop_count: "count_list (header_loop hs) x \<le> length hs"
  unfolding header_loop_def
  by (rule count_list_concat_le) (simp add: case_prod_beta count_list_tagged_le)

lemma cookie_loop_count: "count_list (cookie_loop cs) x \<le> length cs"
  unfolding cookie_loop_def
  by (rule count_list_concat_le) (simp add: count_list_tagged_le)

lemma body_check_count: "count_list (body_check t) x \<le> 1"
  unfolding body_check_def by (cases t) (simp_all add: count_list_tagged_le)

lemma header_loop_tags: "x \<in> set (header_loop hs) \<Longrightarrow> is_prefix ''HTTP_HEADER_'' x"
  by (auto simp: header_loop_def)

lemma cookie_loop_tags: "x \<in> set (cookie_loop cs) \<Longrightarrow> is_prefix ''HTTP_COOKIE_'' x"
  by (auto simp: cookie_loop_def)

lemma body_check_tags: "x \<in> set (body_check t) \<Longrightarrow> is_prefix ''HTTP_BODY_'' x"
  by (auto simp: body_check_def split: sum.splits)

lemma distinct_body_names:
  "distinct (map (\<lambda>p. waf_name_of (''HTTP_BODY_'' @ fst p)) waf_patterns)"
  by (simp add: waf_patterns_def waf_name_of_def)

lemma body_check_names_count: "count_list (map waf_name_of (body_check t)) n \<le> 1"
proof (cases t)
  case (Inl x)
  then show ?thesis by (simp add: body_check_def)
next
  case (Inr content)
  have "distinct (map (\<lambda>p. waf_name_of (''HTTP_BODY_'' @ fst p))
          (filter (\<lambda>(waf_name, patterns). list_ex (\<lambda>pattern. str_in pattern (lower content)) patterns) waf_patterns))"
    by (rule distinct_map_filter) (rule distinct_body_names)
  then have "distinct (map waf_name_of (body_check t))"
    by (simp add: Inr body_check_def matching_vendors_def comp_def)
  then show ?thesis by (rule count_list_distinct)
qed

text \<open>
  C10. For one HTTP response a vendor gets at most one \<open>HTTP_HEADER\<close> indicator per header
  pair, at most one \<open>HTTP_COOKIE\<close> indicator per cookie and at most one \<open>HTTP_BODY\<close>
  indicator in all, however many of its signatures match and however often they occur;
  so the body adds at most one to any count of the resolver.
\<close>

theorem http_indicators_once_per_vendor:
  "count_list (check_http_indicators r) (''HTTP_HEADER_'' @ v) \<le> length (headers r)
   \<and> count_list (check_http_indicators r) (''HTTP_COOKIE_'' @ v) \<le> length (cookies r)
   \<and> count_list (check_http_indicators r) (''HTTP_BODY_'' @ v) \<le> 1
   \<and> count_list (map waf_name_of (body_check (body_text r))) n \<le> 1"
proof -
  have h1: "''HTTP_HEADER_'' @ v \<notin> set (cookie_loop (cookies r))"
    using cookie_loop_tags[of "''HTTP_HEADER_'' @ v" "cookies r"] by auto
  have h2: "''HTTP_HEADER_'' @ v \<notin> set (body_check (body_text r))"
    using body_check_tags[of "''HTTP_HEADER_'' @ v" "body_text r"] by auto
  have c1: "''HTTP_COOKIE_'' @ v \<notin> set (header_loop (headers r))"
    using header_loop_tags[of "''HTTP_COOKIE_'' @ v" "headers r"] by auto
  have c2: "''HTTP_COOKIE_'' @ v \<notin> set (body_check (body_text r))"
    using body_check_tags[of "''HTTP_COOKIE_'' @ v" "body_text r"] by auto
  have b1: "''HTTP_BODY_'' @ v \<notin> set (header_loop (headers r))"
    using header_loop_tags[of "''HTTP_BODY_'' @ v" "headers r"] by auto
  have b2: "''HTTP_BODY_'' @ v \<notin> set (cookie_loop (cookies r))"
    using cookie_loop_tags[of "''HTTP_BODY_'' @ v" "cookies r"] by auto
  have "count_list (check_http_indicators r) (''HTTP_HEADER_'' @ v) \<le> length (headers r)"
    using header_loop_count[of "headers r" "''HTTP_HEADER_'' @ v"] h1 h2
    by (simp add: check_http_indicators_def)
  moreover have "count_list (check_http_indicators r) (''HTTP_COOKIE_'' @ v) \<le> length (cookies r)"
    using cookie_loop_count[of "cookies r" "''HTTP_COOKIE_'' @ v"] c1 c2
    by (simp add: check_http_indicators_def)
  moreover have "count_list (check_http_indicators r) (''HTTP_BODY_'' @ v) \<le> 1"
    using body_check_count[of "body_text r" "''HTTP_BODY_'' @ v"] b1 b2
    by (simp add: check_http_indicators_def)
  ultimately show ?thesis
    using body_check_names_count[of "body_text r" n] by blast
qed

subsection \<open>Letter case\<close>











section \<open>The DNS check\<close>

lemma txt_loop_tags: "x \<in> set (txt_loop records) \<Longrightarrow> is_prefix ''DNS_TXT_'' x"
  by (auto simp: txt_loop_def)


lemma dns_try_body_caught:
  assumes "caught (resolve e domain ''TXT'')" and "caught (resolve e domain ''CNAME'')"
    and "dns_try_body e domain = (indicators, Some x)"
  shows "is_Exception x"
proof -
  have "cname_loop targets = Some y \<Longrightarrow> is_Exception y" for targets y
    by (induction targets) (auto simp: name_error_cdn_def is_Exception_def split: if_splits)
  then show ?thesis
    using assms
    by (auto simp: dns_try_body_def caught_def split: sum.splits if_splits)
qed

lemma check_dns_indicators_caught:
  assumes "caught (resolve e domain ''TXT'')" and "caught (resolve e domain ''CNAME'')"
  shows "\<exists>indicators logs. check_dns_indicators e domain = Inr (indicators, logs)"
proof (cases "dns_try_body e domain")
  case (Pair indicators pending)
  show ?thesis
  proof (cases pending)
    case None
    with Pair show ?thesis by (simp add: check_dns_indicators_def)
  next
    case (Some x)
    with Pair assms have "is_Exception x" by (simp add: dns_try_body_caught)
    with Pair Some show ?thesis by (simp add: check_dns_indicators_def)
  qed
qed



section \<open>The vendor resolver\<close>

lemma dict_get_set:
  "dict_get (dict_set d k v) k' dflt = (if k' = k then v else dict_get d k' dflt)"
  by (induction d k v rule: dict_set.induct) auto

lemma keys_dict_set:
  "map fst (dict_set d k v) = (if k \<in> set (map fst d) then map fst d else map fst d @ [k])"
  by (induction d k v rule: dict_set.induct) auto

lemma tally_get:
  "dict_get (tally indicators d) k 0
     = dict_get d k 0 + int (count_list (map waf_name_of indicators) k)"
  by (induction indicators arbitrary: d) (auto simp: Let_def dict_get_set)

lemma keys_set_dict_set: "fst ` set (dict_set d k v) = insert k (fst ` set d)"
  by (induction d k v rule: dict_set.induct) auto

lemma tally_keys:
  "fst ` set (tally indicators d) = fst ` set d \<union> waf_name_of ` set indicators"
  by (induction indicators arbitrary: d) (simp_all add: Let_def keys_set_dict_set)

lemma find_append:
  "find P (xs @ ys) = (case find P xs of Some x \<Rightarrow> Some x | None \<Rightarrow> find P ys)"
  by (induction xs) auto

lemma tally_find:
  "find P (map fst (tally indicators d))
     = (case find P (map fst d) of
          Some k \<Rightarrow> Some k
        | None \<Rightarrow> find P (map waf_name_of indicators))"
proof (induction indicators arbitrary: d)
  case Nil
  then show ?case by (simp split: option.splits)
next
  case (Cons indicator rest)
  let ?n = "waf_name_of indicator"
  let ?d = "dict_set d ?n (dict_get d ?n 0 + 1)"
  have step: "find P (map fst (tally (indicator # rest) d))
              = (case find P (map fst ?d) of
                   Some k \<Rightarrow> Some k
                 | None \<Rightarrow> find P (map waf_name_of rest))"
    using Cons.IH[of ?d] by (simp add: Let_def)
  show ?case
  proof (cases "?n \<in> set (map fst d)")
    case True
    then have keys: "map fst ?d = map fst d" by (simp add: keys_dict_set)
    show ?thesis
    proof (cases "find P (map fst d)")
      case None
      with True have "\<not> P ?n" by (auto simp: find_None_iff)
      with None step keys show ?thesis by simp
    next
      case (Some k)
      with step keys show ?thesis by simp
    qed
  next
    case False
    then have keys: "map fst ?d = map fst d @ [?n]" by (simp add: keys_dict_set)
    show ?thesis
      unfolding step keys find_append
      by (simp split: option.splits)
  qed
qed

lemma py_max_key_find:
  "find (\<lambda>x. \<forall>y \<in> set (best # xs). f y \<le> f x) (best # xs) = Some (py_max_key f best xs)"
proof (induction xs arbitrary: best)
  case Nil
  then show ?case by simp
next
  case (Cons x xs)
  show ?case
  proof (cases "f x > f best")
    case True
    have "find (\<lambda>z. \<forall>y \<in> set (best # x # xs). f y \<le> f z) (best # x # xs)
          = find (\<lambda>z. \<forall>y \<in> set (best # x # xs). f y \<le> f z) (x # xs)"
      using True by auto
    also have "\<dots> = find (\<lambda>z. \<forall>y \<in> set (x # xs). f y \<le> f z) (x # xs)"
      using True by (intro find_cong) auto
    also have "\<dots> = Some (py_max_key f x xs)" by (rule Cons.IH)
    finally show ?thesis using True by simp
  next
    case False
    show ?thesis
    proof (cases "\<forall>y \<in> set (best # xs). f y \<le> f best")
      case True
      then have "py_max_key f best xs = best"
        using Cons.IH[of best] by simp
      with True False show ?thesis by auto
    next
      case nomax: False
      then have nx: "\<not> (\<forall>y \<in> set (best # x # xs). f y \<le> f x)"
        using False by (auto simp: not_le)
      have "find (\<lambda>z. \<forall>y \<in> set (best # x # xs). f y \<le> f z) (best # x # xs)
            = find (\<lambda>z. \<forall>y \<in> set (best # x # xs). f y \<le> f z) xs"
        using nomax nx by auto
      also have "\<dots> = find (\<lambda>z. \<forall>y \<in> set (best # xs). f y \<le> f z) xs"
        using False by (intro find_cong) auto
      also have "\<dots> = find (\<lambda>z. \<forall>y \<in> set (best # xs). f y \<le> f z) (best # xs)"
        using nomax by auto
      also have "\<dots> = Some (py_max_key f best xs)" by (rule Cons.IH)
      finally show ?thesis using False by simp
    qed
  qed
qed

text \<open>
  C7. The resolver is a function of the indicator list, ties included: it returns the
  name with the highest count, and among names of equal count the one that comes first
  in the list, so for \<open>[V1, V2]\<close> it returns \<open>V1\<close>. (The name of an indicator is what
  \<open>waf_name_of\<close> reads off it.)
\<close>

theorem resolver_first_most_frequent:
  "determine_waf_type indicators
     = (case first_most_frequent (map waf_name_of indicators) of
          None \<Rightarrow> ''unknown''
        | Some n \<Rightarrow> n)"
proof -
  let ?d = "tally indicators []"
  let ?names = "map waf_name_of indicators"
  let ?P = "\<lambda>n. \<forall>m \<in> set ?names. count_list ?names m \<le> count_list ?names n"
  have counts: "dict_get ?d k 0 = int (count_list ?names k)" for k
    by (simp add: tally_get)
  have keys: "set (map fst ?d) = set ?names"
    by (simp add: tally_keys)
  have same: "find ?P (map fst ?d) = find ?P ?names"
    by (simp add: tally_find)
  show ?thesis
  proof (cases "map fst ?d")
    case Nil
    with keys have "indicators = []" by simp
    then show ?thesis by (simp add: determine_waf_type_def first_most_frequent_def)
  next
    case (Cons k ks)
    have ks: "set (k # ks) = set ?names"
      using keys by (simp only: Cons)
    have pred: "(\<lambda>x. \<forall>y \<in> set (k # ks). dict_get ?d y 0 \<le> dict_get ?d x 0) = ?P"
      by (simp only: ks counts of_nat_le_iff)
    have "find ?P (k # ks) = Some (py_max_key (\<lambda>k. dict_get ?d k 0) k ks)"
      using py_max_key_find[where f = "\<lambda>k. dict_get ?d k 0" and best = k and xs = ks] unfolding pred .
    then have "find ?P (map fst ?d) = Some (py_max_key (\<lambda>k. dict_get ?d k 0) k ks)"
      by (simp only: Cons)
    with same have "first_most_frequent ?names = Some (py_max_key (\<lambda>k. dict_get ?d k 0) k ks)"
      by (simp add: first_most_frequent_def)
    with Cons show ?thesis by (simp add: determine_waf_type_def Let_def)
  qed
qed

text \<open>A tie between akamai and cloudflare: the first one wins.\<close>

theorem resolver_first_most_frequent_witness:
  "determine_waf_type [''HTTP_HEADER_akamai'', ''DNS_TXT_cloudflare''] = ''akamai''
   \<and> first_most_frequent (map waf_name_of [''HTTP_HEADER_akamai'', ''DNS_TXT_cloudflare'']) = Some ''akamai''"
proof -
  have a: "first_most_frequent (map waf_name_of [''HTTP_HEADER_akamai'', ''DNS_TXT_cloudflare'']) = Some ''akamai''"
    by (simp add: first_most_frequent_def waf_name_of_def)
  from resolver_first_most_frequent[of "[''HTTP_HEADER_akamai'', ''DNS_TXT_cloudflare'']"] a
  show ?thesis by simp
qed

text \<open>
  C3. For indicators tagged \<open>[V1, V1, V2]\<close> the resolver should return \<open>V1\<close>, for every
  vendor of the registry, \<open>aws_waf\<close> and \<open>f5_bigip\<close> included. The resolver reads the
  vendor as the text after the last underscore of the indicator, so for the indicators
  of \<open>response_bigip\<close>, two of \<open>f5_bigip\<close> and one of \<open>cloudflare\<close>, it returns
  \<open>bigip\<close>, which is no vendor of the registry.
\<close>

theorem resolver_truncates_f5_bigip:
  "check_http_indicators response_bigip =
     [''HTTP_HEADER_f5_bigip'', ''HTTP_HEADER_f5_bigip'', ''HTTP_COOKIE_cloudflare'']
   \<and> determine_waf_type
        [''HTTP_HEADER_f5_bigip'', ''HTTP_HEADER_f5_bigip'', ''HTTP_COOKIE_cloudflare'']
       = ''bigip''"
  by (simp add: model_simps string_simps response_bigip_def)

text \<open>
  C6, as stated: on the empty indicator list the resolver should return an absent value,
  distinct from the string \<open>unknown\<close>. It returns that very string.
\<close>

theorem resolver_empty_is_unknown:
  "determine_waf_type [] = ''unknown''"
  by (simp add: determine_waf_type_def)

section \<open>The check of one URL\<close>

lemma check_waf_protection_caught:
  assumes "caught (urlparse_netloc e target)"
    and "\<And>domain rdtype. caught (resolve e domain rdtype)"
    and "caught (requests_get e target)"
  shows "\<exists>res logs. check_waf_protection e target = Inr (res, logs)"
proof (cases "urlparse_netloc e target")
  case (Inl x)
  with assms(1) show ?thesis
    by (simp add: check_waf_protection_def protection_try_body_def caught_def)
next
  case (Inr domain)
  obtain indicators logs where d: "check_dns_indicators e domain = Inr (indicators, logs)"
    using check_dns_indicators_caught[of e domain] assms(2) by blast
  show ?thesis
  proof (cases "requests_get e target")
    case (Inl x)
    with assms(3) Inr d show ?thesis
      by (simp add: check_waf_protection_def protection_try_body_def caught_def)
  next
    case r: (Inr r)
    with Inr d show ?thesis
      by (simp add: check_waf_protection_def protection_try_body_def Let_def)
  qed
qed

lemma protection_try_body_detected:
  assumes "protection_try_body e target res = ((res', logs), pending)"
    and "waf_detected res = (waf_indicators res \<noteq> [])"
  shows "waf_detected res' = (waf_indicators res' \<noteq> [])"
  using assms
  by (auto simp: protection_try_body_def Let_def split: sum.splits prod.splits if_splits)

lemma protection_try_body_error:
  assumes "protection_try_body e target res = ((res', logs), pending)"
  shows "error res' = error res \<and> url res' = url res"
  using assms
  by (auto simp: protection_try_body_def Let_def split: sum.splits prod.splits if_splits)

lemma protection_try_body_pending:
  assumes "protection_try_body e target res = ((res', logs), pending)"
    and "\<And>domain rdtype. caught (resolve e domain rdtype)"
  shows "pending = (case urlparse_netloc e target of
                      Inl x \<Rightarrow> Some x
                    | Inr domain \<Rightarrow> (case requests_get e target of Inl x \<Rightarrow> Some x | Inr r \<Rightarrow> None))"
proof (cases "urlparse_netloc e target")
  case (Inl x)
  with assms(1) show ?thesis by (simp add: protection_try_body_def)
next
  case (Inr domain)
  obtain indicators dns_log where d: "check_dns_indicators e domain = Inr (indicators, dns_log)"
    using check_dns_indicators_caught[of e domain] assms(2) by blast
  from assms(1) Inr d show ?thesis
    by (auto simp: protection_try_body_def Let_def split: sum.splits)
qed

text \<open>
  C4. For every probed URL the check returns a result in which \<open>waf_detected\<close> is true
  if and only if \<open>waf_indicators\<close> is not empty.
\<close>

theorem detected_iff_indicators:
  assumes "caught (urlparse_netloc e target)"
    and "\<And>domain rdtype. caught (resolve e domain rdtype)"
    and "caught (requests_get e target)"
  shows "\<exists>res logs. check_waf_protection e target = Inr (res, logs)
           \<and> waf_detected res = (waf_indicators res \<noteq> [])"
proof -
  obtain res logs where r: "check_waf_protection e target = Inr (res, logs)"
    using check_waf_protection_caught[OF assms] by blast
  obtain res' logs' pending
    where b: "protection_try_body e target
                \<lparr>url = target, waf_detected = False, waf_type = None, waf_indicators = [],
                 status_code = None, response_time = None, error = None\<rparr> = ((res', logs'), pending)"
    by (metis surj_pair)
  from protection_try_body_detected[OF b]
  have "waf_detected res' = (waf_indicators res' \<noteq> [])" by simp
  with r b have "waf_detected res = (waf_indicators res \<noteq> [])"
    by (auto simp: check_waf_protection_def split: option.splits if_splits)
  with r show ?thesis by blast
qed

text \<open>The response with the Cloudflare header and cookie.\<close>

theorem detected_iff_indicators_witness:
  "caught (urlparse_netloc env_cf ''https://www.example'')
   \<and> caught (requests_get env_cf ''https://www.example'')
   \<and> check_waf_protection env_cf ''https://www.example'' =
       Inr (\<lparr>url = ''https://www.example'', waf_detected = True, waf_type = Some ''cloudflare'',
             waf_indicators = [''HTTP_HEADER_cloudflare'', ''HTTP_COOKIE_cloudflare''],
             status_code = Some 200, response_time = Some 1, error = None\<rparr>, [])"
proof -
  have a: "caught (urlparse_netloc env_cf u)" for u
    by (simp add: env_cf_def caught_def)
  have b: "caught (resolve env_cf domain rdtype)" for domain rdtype
    by (simp add: env_cf_def caught_def is_Exception_def)
  have c: "caught (requests_get env_cf u)" for u
    by (simp add: env_cf_def caught_def)
  from detected_iff_indicators[OF a b c, of "''https://www.example''"] a c
  show ?thesis
    by (simp add: model_simps string_simps env_cf_def response_cf_def)
qed

text \<open>
  C9, as stated: every exception raised during the URL parsing, the DNS check or the HTTP
  fetch should end up in \<open>error\<close>. A failure of the resolver is caught inside
  \<open>_check_dns_indicators\<close>, logged at debug level and never reaches \<open>error\<close>: for a domain
  whose DNS queries time out and whose web server answers, \<open>error\<close> stays absent.
\<close>

theorem dns_failure_leaves_error_unset:
  "resolve env_dns_timeout ''slow.example'' ''TXT'' = Inl (Exn DNSException ''The DNS operation timed out'')
   \<and> check_waf_protection env_dns_timeout ''https://slow.example'' =
       Inr (\<lparr>url = ''https://slow.example'', waf_detected = False, waf_type = None,
             waf_indicators = [], status_code = Some 200, response_time = Some 2, error = None\<rparr>,
            [(DEBUG, ''Erro ao verificar DNS para slow.example: The DNS operation timed out'')])"
  by (simp add: model_simps string_simps env_dns_timeout_def response_plain_def)

text \<open>
  C9, amended: for every URL \<open>check_waf_protection\<close> returns a result (it propagates
  nothing but the interrupts of the process) with all seven fields, \<open>url\<close> being the URL
  given; an exception raised by the URL parsing or by the HTTP fetch becomes the text of
  \<open>error\<close>, and otherwise \<open>error\<close> is absent, whatever happened inside the DNS check.
\<close>

theorem failures_become_error:
  assumes "caught (urlparse_netloc e target)"
    and "\<And>domain rdtype. caught (resolve e domain rdtype)"
    and "caught (requests_get e target)"
  shows "\<exists>res logs. check_waf_protection e target = Inr (res, logs)
           \<and> url res = target
           \<and> error res = (case urlparse_netloc e target of
                            Inl x \<Rightarrow> Some (str x)
                          | Inr domain \<Rightarrow>
                              (case requests_get e target of
                                 Inl x \<Rightarrow> Some (str x)
                               | Inr r \<Rightarrow> None))"
proof -
  obtain res logs where r: "check_waf_protection e target = Inr (res, logs)"
    using check_waf_protection_caught[OF assms] by blast
  obtain res' logs' pending
    where b: "protection_try_body e target
                \<lparr>url = target, waf_detected = False, waf_type = None, waf_indicators = [],
                 status_code = None, response_time = None, error = None\<rparr> = ((res', logs'), pending)"
    by (metis surj_pair)
  note p = protection_try_body_pending[OF b assms(2)]
  from protection_try_body_error[OF b]
  have e': "error res' = None" and u': "url res' = target" by simp_all
  from r b p e' u' have "url res = target
           \<and> error res = (case urlparse_netloc e target of
                            Inl x \<Rightarrow> Some (str x)
                          | Inr domain \<Rightarrow>
                              (case requests_get e target of
                                 Inl x \<Rightarrow> Some (str x)
                               | Inr r \<Rightarrow> None))"
    by (auto simp: check_waf_protection_def split: option.splits if_splits sum.splits)
  with r show ?thesis by blast
qed

text \<open>A domain that does not exist: the fetch fails and its message is the \<open>error\<close>.\<close>

theorem failures_become_error_witness:
  "caught (urlparse_netloc env_nxdomain ''https://nonexistent.example'')
   \<and> caught (requests_get env_nxdomain ''https://nonexistent.example'')
   \<and> check_waf_protection env_nxdomain ''https://nonexistent.example'' =
       Inr (\<lparr>url = ''https://nonexistent.example'', waf_detected = False, waf_type = None,
             waf_indicators = [], status_code = None, response_time = None,
             error = Some ''Name or service not known''\<rparr>,
            [(DEBUG, ''Erro ao verificar DNS para nonexistent.example: The DNS query name does not exist''),
             (WARNING, ''Erro ao acessar https://nonexistent.example: Name or service not known'')])"
proof -
  have a: "caught (urlparse_netloc env_nxdomain u)" for u
    by (simp add: env_nxdomain_def caught_def)
  have b: "caught (resolve env_nxdomain domain rdtype)" for domain rdtype
    by (simp add: env_nxdomain_def caught_def is_Exception_def)
  have c: "caught (requests_get env_nxdomain u)" for u
    by (simp add: env_nxdomain_def caught_def is_Exception_def)
  from failures_become_error[OF a b c, of "''https://nonexistent.example''"] a c
  show ?thesis
    by (simp add: model_simps string_simps env_nxdomain_def)
qed

text \<open>
  C1. When the HTTP fetch raises a request exception, the result has \<open>error\<close> set and
  \<open>status_code\<close> and \<open>response_time\<close> absent and keeps the DNS indicators; the claim adds
  that \<open>waf_type\<close> is set if and only if \<open>waf_detected\<close> is true. The vendor is assigned
  at the end of the \<open>try\<close> body, after the fetch, so the exception skips it: for a domain
  with a Cloudflare TXT record and a refused connection the result has \<open>waf_detected\<close>
  true, the indicator \<open>DNS_TXT_cloudflare\<close>, and no \<open>waf_type\<close>.
\<close>

theorem http_failure_leaves_vendor_unset:
  "check_waf_protection env_txt_refused ''https://shop.example'' =
     Inr (\<lparr>url = ''https://shop.example'', waf_detected = True, waf_type = None,
           waf_indicators = [''DNS_TXT_cloudflare''], status_code = None, response_time = None,
           error = Some ''Connection refused''\<rparr>,
          [(WARNING, ''Erro ao acessar https://shop.example: Connection refused'')])"
  by (simp add: model_simps string_simps env_txt_refused_def)

text \<open>
  C2. A CNAME target that contains one of the tokens cloudflare, akamai, fastly,
  cloudfront should give a \<open>DNS_CNAME\<close> indicator of that vendor, and a CNAME to
  \<open>d111111abcdef8.cloudfront.net\<close> with a refused connection should give
  \<open>waf_detected\<close> true and vendor cloudfront. In the code the matching record raises
  \<open>NameError\<close> (the name \<open>cdn\<close> is unbound where the indicator is built), the DNS check
  logs it and returns without any CNAME indicator: the result has \<open>waf_detected\<close> false,
  no indicator and no vendor.
\<close>

theorem cname_cloudfront_gives_no_indicator:
  "check_waf_protection env_cname_refused ''https://cdn.example'' =
     Inr (\<lparr>url = ''https://cdn.example'', waf_detected = False, waf_type = None,
           waf_indicators = [], status_code = None, response_time = None,
           error = Some ''Connection refused''\<rparr>,
          [(DEBUG, ''Erro ao verificar DNS para cdn.example: name '' @ [CHR 0x27] @ ''cdn''
                     @ [CHR 0x27] @ '' is not defined''),
           (WARNING, ''Erro ao acessar https://cdn.example: Connection refused'')])"
  by (simp add: model_simps string_simps env_cname_refused_def)

lemma protection_try_body_type:
  assumes "protection_try_body e target res = ((res', logs), pending)"
    and "waf_type res = None" and "waf_indicators res' = []"
  shows "waf_type res' = None"
  using assms
  by (auto simp: protection_try_body_def Let_def split: sum.splits prod.splits if_splits)

text \<open>
  C6, amended: on the empty indicator list \<open>_determine_waf_type\<close> returns the string
  \<open>unknown\<close>; the absent vendor of a result without indicators comes from
  \<open>check_waf_protection\<close>, which calls the resolver only when the indicator list is not
  empty, so that every result it returns without indicators has \<open>waf_type\<close> absent.
\<close>

theorem no_indicators_no_vendor:
  assumes "check_waf_protection e target = Inr (res, logs)" and "waf_indicators res = []"
  shows "waf_type res = None \<and> determine_waf_type (waf_indicators res) = ''unknown''"
proof -
  obtain res' logs' pending
    where b: "protection_try_body e target
                \<lparr>url = target, waf_detected = False, waf_type = None, waf_indicators = [],
                 status_code = None, response_time = None, error = None\<rparr> = ((res', logs'), pending)"
    by (metis surj_pair)
  from assms b have "waf_indicators res' = []"
    by (auto simp: check_waf_protection_def split: option.splits if_splits)
  with protection_try_body_type[OF b] have "waf_type res' = None" by simp
  with assms(1) b have "waf_type res = None"
    by (auto simp: check_waf_protection_def split: option.splits if_splits)
  with assms(2) show ?thesis by (simp add: determine_waf_type_def)
qed

theorem no_indicators_no_vendor_witness:
  "check_waf_protection env_dns_timeout ''https://slow.example'' =
     Inr (\<lparr>url = ''https://slow.example'', waf_detected = False, waf_type = None,
           waf_indicators = [], status_code = Some 200, response_time = Some 2, error = None\<rparr>,
          [(DEBUG, ''Erro ao verificar DNS para slow.example: The DNS operation timed out'')])
   \<and> determine_waf_type [] = ''unknown''"
proof -
  have a: "check_waf_protection env_dns_timeout ''https://slow.example'' =
     Inr (\<lparr>url = ''https://slow.example'', waf_detected = False, waf_type = None,
           waf_indicators = [], status_code = Some 200, response_time = Some 2, error = None\<rparr>,
          [(DEBUG, ''Erro ao verificar DNS para slow.example: The DNS operation timed out'')])"
    by (simp add: model_simps string_simps env_dns_timeout_def response_plain_def)
  from no_indicators_no_vendor[OF a] a show ?thesis by simp
qed

end
